theory Spec2Isabelle
  imports Main "HOL-Library.AList"
begin

section \<open>Python values, errors and exceptions\<close>

text \<open>
  The values that flow through \<^verbatim>\<open>qiskit/validation/base.py\<close>: primitive data, lists,
  dicts with string keys (association lists, read with \<open>map_of\<close> and written with
  \<open>AList.update\<close>, which keeps a key's position and appends a new key, as a Python dict does),
  instances of a model class (the class identifier and the instance's \<^verbatim>\<open>__dict__\<close>), class
  objects (what \<^verbatim>\<open>obj.__class__\<close> evaluates to), and the sentinel object \<^verbatim>\<open>VALID_MODEL\<close>.
\<close>

datatype pyval =
    PNone
  | PBool bool
  | PInt int
  | PStr string
  | PList "pyval list"
  | PDict "(string \<times> pyval) list"
  | PObj nat "(string \<times> pyval) list"
  | PClass nat
  | VALID_MODEL

type_synonym pydict = "(string \<times> pyval) list"

text \<open>Python truth value testing, as used by \<^verbatim>\<open>if x:\<close> and \<^verbatim>\<open>not x\<close>.\<close>

fun truthy :: "pyval \<Rightarrow> bool" where
  "truthy PNone = False"
| "truthy (PBool b) = b"
| "truthy (PInt i) = (i \<noteq> 0)"
| "truthy (PStr s) = (s \<noteq> [])"
| "truthy (PList xs) = (xs \<noteq> [])"
| "truthy (PDict d) = (d \<noteq> [])"
| "truthy (PObj c attrs) = True"
| "truthy (PClass c) = True"
| "truthy VALID_MODEL = True"

text \<open>
  One entry of an error set. \<open>FieldError i f msg\<close>: field \<open>f\<close> (of element \<open>i\<close> in list
  mode) failed with message \<open>msg\<close>. \<open>NotAnInstance c v\<close> is the
  \<^verbatim>\<open>ValidationError('Not an instance of {}'.format(self.model_cls), data=obj)\<close> built by
  \<^verbatim>\<open>BaseSchema.dump\<close>.
\<close>

datatype verr =
    FieldError "nat option" string string
  | InvalidInputType "nat option"
  | NotAnInstance nat pyval

text \<open>The exceptions a call can end with (\<open>Inl\<close> of a result).\<close>

datatype exn =
    ValidationError "verr list"
  | ValueError
  | AttributeError
  | TypeError
  | IndexError

section \<open>Schemas and field validators\<close>

text \<open>
  Modelled from the spec: the Field Validator capability (a marshmallow field object, which is
  not part of the repository). For each declared field it exposes
  \<^verbatim>\<open>check_and_coerce(raw_value) -> (typed_value | error)\<close> (here \<open>deserialize\<close>, with
  \<open>Inl\<close> the error message), its dump-direction counterpart \<open>serialize\<close>, and
  \<^verbatim>\<open>is_required()\<close>. Both directions are opaque functions of the raw value.
\<close>

record fieldspec =
  fname :: string
  required :: bool
  deserialize :: "pyval \<Rightarrow> string + pyval"
  serialize :: "pyval \<Rightarrow> string + pyval"

text \<open>
  A schema instance: its declared fields and the class attribute \<^verbatim>\<open>model_cls\<close>, which is
  \<^verbatim>\<open>SimpleNamespace\<close> until \<^verbatim>\<open>bind_schema\<close> sets it. Class identifiers are natural numbers,
  \<open>0\<close> for \<^verbatim>\<open>SimpleNamespace\<close>. Model classes derive from \<^verbatim>\<open>BaseModel\<close>, a subclass of
  \<^verbatim>\<open>SimpleNamespace\<close>, and are not subclasses of one another: \<^verbatim>\<open>isinstance(obj, cls)\<close> holds
  for the instances of \<open>cls\<close> itself and, when \<open>cls\<close> is \<^verbatim>\<open>SimpleNamespace\<close>, for every
  instance.
\<close>

definition SimpleNamespace :: nat where
  "SimpleNamespace = 0"

record schema =
  declared_fields :: "fieldspec list"
  model_cls :: nat

fun isinstance :: "pyval \<Rightarrow> nat \<Rightarrow> bool" where
  "isinstance (PObj c attrs) m = (c = m \<or> m = SimpleNamespace)"
| "isinstance v m = False"

definition black_list :: "string list" where
  "black_list = [''__is_valid__'']"

subsection \<open>The validity flag\<close>

text \<open>\<^verbatim>\<open>instance.__is_valid__ = True\<close>; assigning an attribute on a value with no
  \<^verbatim>\<open>__dict__\<close> raises.\<close>

fun validate_model :: "pyval \<Rightarrow> exn + pyval" where
  "validate_model (PObj c attrs) = Inr (PObj c (AList.update ''__is_valid__'' (PBool True) attrs))"
| "validate_model v = Inl AttributeError"

fun invalidate_instance :: "pyval \<Rightarrow> exn + pyval" where
  "invalidate_instance (PObj c attrs) =
     Inr (PObj c (AList.update ''__is_valid__'' (PBool False) attrs))"
| "invalidate_instance v = Inl AttributeError"

text \<open>\<^verbatim>\<open>getattr(instance, '__is_valid__', False)\<close>: the raw attribute, or \<^verbatim>\<open>False\<close>.\<close>

fun is_valid_instance :: "pyval \<Rightarrow> pyval" where
  "is_valid_instance (PObj c attrs) =
     (case map_of attrs ''__is_valid__'' of Some v \<Rightarrow> v | None \<Rightarrow> PBool False)"
| "is_valid_instance v = PBool False"

text \<open>
  Attribute access on an instance. The classes that \<^verbatim>\<open>SimpleNamespace\<close> and its Python
  subclasses inherit from carry data descriptors, which take precedence over the instance's
  \<^verbatim>\<open>__dict__\<close>: \<^verbatim>\<open>__class__\<close> (the class), \<^verbatim>\<open>__dict__\<close> (the dict itself, read-only) and, for a
  class defined in Python such as a \<^verbatim>\<open>BaseModel\<close> subclass, \<^verbatim>\<open>__weakref__\<close> (\<^verbatim>\<open>None\<close> while no
  weak reference exists, read-only). Every other name is looked up in the \<^verbatim>\<open>__dict__\<close>
  first. The constructor of \<^verbatim>\<open>SimpleNamespace\<close> writes its keywords into the \<^verbatim>\<open>__dict__\<close>
  directly, so an entry can exist under a descriptor's name.
\<close>

definition data_descriptors :: "nat \<Rightarrow> string list" where
  "data_descriptors c =
     (if c = SimpleNamespace then [''__class__'', ''__dict__'']
      else [''__class__'', ''__dict__'', ''__weakref__''])"

text \<open>\<^verbatim>\<open>getattr(obj, k)\<close> for an instance; \<open>None\<close> when the attribute does not exist.\<close>

fun getattr :: "pyval \<Rightarrow> string \<Rightarrow> pyval option" where
  "getattr (PObj c attrs) k =
     (if k = ''__class__'' then Some (PClass c)
      else if k = ''__dict__'' then Some (PDict attrs)
      else if k = ''__weakref__'' \<and> c \<noteq> SimpleNamespace then Some PNone
      else map_of attrs k)"
| "getattr v k = None"

declare getattr.simps [simp del]

text \<open>
  Attribute assignment \<^verbatim>\<open>instance.k = v\<close> by a caller (a mutation). \<^verbatim>\<open>__class__\<close> accepts
  only a class, and only between classes defined in Python; the two read-only descriptors
  refuse every value.
\<close>

fun setattr :: "pyval \<Rightarrow> string \<Rightarrow> pyval \<Rightarrow> exn + pyval" where
  "setattr (PObj c attrs) k v =
     (if k = ''__class__'' then
        (case v of
           PClass c' \<Rightarrow>
             if c \<noteq> SimpleNamespace \<and> c' \<noteq> SimpleNamespace then Inr (PObj c' attrs)
             else Inl TypeError
         | _ \<Rightarrow> Inl TypeError)
      else if k = ''__dict__'' then Inl AttributeError
      else if k = ''__weakref__'' \<and> c \<noteq> SimpleNamespace then Inl AttributeError
      else Inr (PObj c (AList.update k v attrs)))"
| "setattr x k v = Inl AttributeError"

subsection \<open>The unknown-field hooks\<close>

text \<open>
  \<^verbatim>\<open>for key in additional_keys: valid_data[key] = source(key)\<close>, where \<open>source\<close> reads the
  key's value: \<^verbatim>\<open>getattr(original_data, key)\<close> on dump, \<^verbatim>\<open>original_data[key]\<close> on load. The
  keys are taken from the original itself, so the read cannot miss. A Python set is iterated
  in no specified order; the keys are visited here in the original's order, and the resulting
  dict holds the same entries whatever the order.
\<close>

definition copy_keys :: "string list \<Rightarrow> (string \<Rightarrow> pyval option) \<Rightarrow> pydict \<Rightarrow> pydict" where
  "copy_keys keys source valid_data =
     fold (\<lambda>key acc. case source key of Some v \<Rightarrow> AList.update key v acc | None \<Rightarrow> acc)
       keys valid_data"

text \<open>\<^verbatim>\<open>set(original_data.__dict__) - set(valid_data) - set(self.black_list)\<close>\<close>

definition dump_additional_keys :: "pydict \<Rightarrow> pydict \<Rightarrow> string list" where
  "dump_additional_keys attrs valid_data =
     filter (\<lambda>k. k \<notin> set (map fst valid_data) \<and> k \<notin> set black_list) (remdups (map fst attrs))"

text \<open>\<^verbatim>\<open>set(original_data) - set(valid_data)\<close>\<close>

definition load_additional_keys :: "pydict \<Rightarrow> pydict \<Rightarrow> string list" where
  "load_additional_keys original valid_data =
     filter (\<lambda>k. k \<notin> set (map fst valid_data)) (remdups (map fst original))"

text \<open>The body of \<^verbatim>\<open>dump_additional_data\<close> for one element. \<^verbatim>\<open>original_data.__dict__\<close>
  is evaluated first and exists for instances only; each additional key is read with
  \<^verbatim>\<open>getattr(original_data, key)\<close>.\<close>

fun dump_additional_one :: "pyval \<Rightarrow> pyval \<Rightarrow> exn + pyval" where
  "dump_additional_one (PDict valid_data) (PObj c attrs) =
     Inr (PDict (copy_keys (dump_additional_keys attrs valid_data) (getattr (PObj c attrs))
                  valid_data))"
| "dump_additional_one valid_data (PObj c attrs) = Inl TypeError"
| "dump_additional_one valid_data original = Inl AttributeError"

fun load_additional_one :: "pyval \<Rightarrow> pyval \<Rightarrow> exn + pyval" where
  "load_additional_one (PDict valid_data) (PDict original) =
     Inr (PDict (copy_keys (load_additional_keys original valid_data) (map_of original)
                  valid_data))"
| "load_additional_one valid_data original = Inl TypeError"

text \<open>\<^verbatim>\<open>for i, _ in enumerate(valid_data): ... original_data[i] ...\<close>: the elements are
  processed in order, and the first failure ends the loop.\<close>

fun dump_additional_many :: "pyval list \<Rightarrow> pyval list \<Rightarrow> exn + pyval list" where
  "dump_additional_many [] originals = Inr []"
| "dump_additional_many (v # vs) [] = Inl IndexError"
| "dump_additional_many (v # vs) (orig # origs) =
     (case dump_additional_one v orig of
        Inl e \<Rightarrow> Inl e
      | Inr v' \<Rightarrow> (case dump_additional_many vs origs of
                    Inl e \<Rightarrow> Inl e
                  | Inr vs' \<Rightarrow> Inr (v' # vs')))"

fun load_additional_many :: "pyval list \<Rightarrow> pyval list \<Rightarrow> exn + pyval list" where
  "load_additional_many [] originals = Inr []"
| "load_additional_many (v # vs) [] = Inl IndexError"
| "load_additional_many (v # vs) (orig # origs) =
     (case load_additional_one v orig of
        Inl e \<Rightarrow> Inl e
      | Inr v' \<Rightarrow> (case load_additional_many vs origs of
                    Inl e \<Rightarrow> Inl e
                  | Inr vs' \<Rightarrow> Inr (v' # vs')))"

text \<open>
  \<^verbatim>\<open>BaseSchema.dump_additional_data(valid_data, many, original_data)\<close> and
  \<^verbatim>\<open>BaseSchema.load_additional_data(valid_data, many, original_data)\<close>. The schema engine
  passes a dict (a list of dicts when \<open>many\<close>) as \<open>valid_data\<close>; the shapes it never passes
  are reported as \<open>TypeError\<close>.
\<close>

fun dump_additional_data :: "pyval \<Rightarrow> bool \<Rightarrow> pyval \<Rightarrow> exn + pyval" where
  "dump_additional_data (PList valid_data) True (PList original_data) =
     (case dump_additional_many valid_data original_data of
        Inl e \<Rightarrow> Inl e | Inr vs \<Rightarrow> Inr (PList vs))"
| "dump_additional_data valid_data True original_data = Inl TypeError"
| "dump_additional_data valid_data False original_data =
     dump_additional_one valid_data original_data"

fun load_additional_data :: "pyval \<Rightarrow> bool \<Rightarrow> pyval \<Rightarrow> exn + pyval" where
  "load_additional_data (PList valid_data) True (PList original_data) =
     (case load_additional_many valid_data original_data of
        Inl e \<Rightarrow> Inl e | Inr vs \<Rightarrow> Inr (PList vs))"
| "load_additional_data valid_data True original_data = Inl TypeError"
| "load_additional_data valid_data False original_data =
     load_additional_one valid_data original_data"

section \<open>The schema engine\<close>

text \<open>
  Modelled from the spec: the Schema Engine (marshmallow's \<^verbatim>\<open>Schema\<close>, the superclass of
  \<^verbatim>\<open>BaseSchema\<close>, which is not part of the repository). It walks the declared fields, whose
  names are distinct in a schema; a field absent from the source is skipped on dump; on
  validation a missing required field is an error and unknown keys are not; the post-dump and
  post-load hooks run only when the walk reported no error; in list mode the walk is
  element-wise, in order, with the errors indexed by element. Every call of a field
  validator increments a counter (a counting Field Validator stub), threaded through the
  engine as its last argument and returned with the result.
\<close>

fun get_value :: "string \<Rightarrow> pyval \<Rightarrow> pyval option" where
  "get_value k (PObj c attrs) = getattr (PObj c attrs) k"
| "get_value k (PDict d) = map_of d k"
| "get_value k v = None"

fun marshal :: "fieldspec list \<Rightarrow> nat option \<Rightarrow> pyval \<Rightarrow> nat \<Rightarrow> pydict \<times> verr list \<times> nat" where
  "marshal [] idx obj n = ([], [], n)"
| "marshal (f # fs) idx obj n =
     (case get_value (fname f) obj of
        None \<Rightarrow> marshal fs idx obj n
      | Some v \<Rightarrow>
          (case marshal fs idx obj (Suc n) of
             (d, errs, n') \<Rightarrow>
               (case serialize f v of
                  Inl msg \<Rightarrow> (d, FieldError idx (fname f) msg # errs, n')
                | Inr v' \<Rightarrow> ((fname f, v') # d, errs, n'))))"

fun marshal_many ::
  "fieldspec list \<Rightarrow> nat \<Rightarrow> pyval list \<Rightarrow> nat \<Rightarrow> pyval list \<times> verr list \<times> nat" where
  "marshal_many fs i [] n = ([], [], n)"
| "marshal_many fs i (x # xs) n =
     (case marshal fs (Some i) x n of
        (d, errs, n1) \<Rightarrow>
          (case marshal_many fs (Suc i) xs n1 of
             (ds, errs', n2) \<Rightarrow> (PDict d # ds, errs @ errs', n2)))"

fun unmarshal :: "fieldspec list \<Rightarrow> nat option \<Rightarrow> pydict \<Rightarrow> nat \<Rightarrow> pydict \<times> verr list \<times> nat" where
  "unmarshal [] idx data n = ([], [], n)"
| "unmarshal (f # fs) idx data n =
     (case map_of data (fname f) of
        None \<Rightarrow>
          (case unmarshal fs idx data n of
             (r, errs, n') \<Rightarrow>
               if required f
               then (r, FieldError idx (fname f) ''Missing data for required field.'' # errs, n')
               else (r, errs, n'))
      | Some v \<Rightarrow>
          (case unmarshal fs idx data (Suc n) of
             (r, errs, n') \<Rightarrow>
               (case deserialize f v of
                  Inl msg \<Rightarrow> (r, FieldError idx (fname f) msg # errs, n')
                | Inr v' \<Rightarrow> ((fname f, v') # r, errs, n'))))"

fun unmarshal_many ::
  "fieldspec list \<Rightarrow> nat \<Rightarrow> pyval list \<Rightarrow> nat \<Rightarrow> pyval list \<times> verr list \<times> nat" where
  "unmarshal_many fs i [] n = ([], [], n)"
| "unmarshal_many fs i (PDict d # xs) n =
     (case unmarshal fs (Some i) d n of
        (r, errs, n1) \<Rightarrow>
          (case unmarshal_many fs (Suc i) xs n1 of
             (rs, errs', n2) \<Rightarrow> (PDict r # rs, errs @ errs', n2)))"
| "unmarshal_many fs i (x # xs) n =
     (case unmarshal_many fs (Suc i) xs n of
        (rs, errs', n2) \<Rightarrow> (PNone # rs, InvalidInputType (Some i) # errs', n2))"

text \<open>The result of a call: an exception or a value, and the counter of field-validator
  calls after it.\<close>

type_synonym 'a outcome = "(exn + 'a) \<times> nat"

text \<open>The engine's \<^verbatim>\<open>dump\<close>: the walk, then (when it reported no error) the post-dump hook
  \<^verbatim>\<open>dump_additional_data\<close> with the object passed to \<^verbatim>\<open>dump\<close> as \<open>original_data\<close>.\<close>

definition post_dump :: "pyval \<Rightarrow> verr list \<Rightarrow> bool \<Rightarrow> pyval \<Rightarrow> nat \<Rightarrow> (pyval \<times> verr list) outcome" where
  "post_dump result errors many obj n =
     (if errors \<noteq> [] then (Inr (result, errors), n)
      else (case dump_additional_data result many obj of
              Inl e \<Rightarrow> (Inl e, n)
            | Inr result' \<Rightarrow> (Inr (result', []), n)))"

fun super_dump :: "schema \<Rightarrow> pyval \<Rightarrow> bool \<Rightarrow> nat \<Rightarrow> (pyval \<times> verr list) outcome" where
  "super_dump sch obj False n =
     (case marshal (declared_fields sch) None obj n of
        (d, errors, n') \<Rightarrow> post_dump (PDict d) errors False obj n')"
| "super_dump sch (PList xs) True n =
     (case marshal_many (declared_fields sch) 0 xs n of
        (ds, errors, n') \<Rightarrow> post_dump (PList ds) errors True (PList xs) n')"
| "super_dump sch obj True n = (Inl TypeError, n)"

text \<open>The engine's \<^verbatim>\<open>validate(data)\<close>: the load-direction walk with no post-processing; only
  the error set is returned.\<close>

fun schema_validate :: "schema \<Rightarrow> pyval \<Rightarrow> nat \<Rightarrow> verr list \<times> nat" where
  "schema_validate sch (PDict d) n =
     (case unmarshal (declared_fields sch) None d n of (r, errors, n') \<Rightarrow> (errors, n'))"
| "schema_validate sch data n = ([InvalidInputType None], n)"

section \<open>BaseSchema.dump and the bound model's operations\<close>

text \<open>
  Modelled from the spec: \<^verbatim>\<open>is_validating()\<close> of \<^verbatim>\<open>qiskit.validation.utils\<close>, a module that
  is not among the sources: whether a validation-recording session is active. The session is open
  exactly while \<^verbatim>\<open>_validate\<close> evaluates \<^verbatim>\<open>instance.schema.validate(instance.to_dict())\<close>
  (between its assignments \<^verbatim>\<open>__is_validating__ = True\<close> and \<^verbatim>\<open>__is_validating__ = False\<close>), so
  it is passed down the call chain as the first argument \<open>validating\<close>.

  The schema instances that \<^verbatim>\<open>bind_schema\<close> creates have the default \<^verbatim>\<open>many=False\<close>, which is
  what \<^verbatim>\<open>many=None\<close> stands for in \<^verbatim>\<open>dump\<close> and \<^verbatim>\<open>load\<close>.
\<close>

definition dump :: "bool \<Rightarrow> schema \<Rightarrow> pyval \<Rightarrow> bool \<Rightarrow> nat \<Rightarrow> (pyval \<times> verr list) outcome" where
  "dump validating self obj many n =
     (if validating then
        (if isinstance obj (model_cls self) then
           (if truthy (is_valid_instance obj) then (Inr (VALID_MODEL, []), n)
            else super_dump self obj many n)
         else (Inr (obj, [NotAnInstance (model_cls self) obj]), n))
      else super_dump self obj many n)"

text \<open>
  The registry gives, for a class identifier, the class attribute \<^verbatim>\<open>schema\<close> that
  \<^verbatim>\<open>bind_schema\<close> stored on the class (\<open>None\<close> for a class that was never bound).
  \<^verbatim>\<open>instance.schema.meth\<close> looks \<^verbatim>\<open>schema\<close> up on the instance first: an entry of the
  instance's \<^verbatim>\<open>__dict__\<close> shadows the class attribute, and no value stored there has the
  schema's methods.
\<close>

type_synonym registry = "nat \<Rightarrow> schema option"

fun has_attr :: "pyval \<Rightarrow> string \<Rightarrow> bool" where
  "has_attr (PObj c attrs) k = (map_of attrs k \<noteq> None)"
| "has_attr v k = False"

fun instance_schema :: "registry \<Rightarrow> pyval \<Rightarrow> string \<Rightarrow> exn + schema" where
  "instance_schema reg (PObj c attrs) meth =
     (case map_of attrs ''schema'' of
        Some v \<Rightarrow> Inl (if has_attr v meth then TypeError else AttributeError)
      | None \<Rightarrow> (case reg c of Some sch \<Rightarrow> Inr sch | None \<Rightarrow> Inl AttributeError))"
| "instance_schema reg v meth = Inl AttributeError"

text \<open>\<^verbatim>\<open>_SchemaBinder._to_dict(instance)\<close>\<close>

definition to_dict :: "bool \<Rightarrow> registry \<Rightarrow> pyval \<Rightarrow> nat \<Rightarrow> pyval outcome" where
  "to_dict validating reg instance n =
     (case instance_schema reg instance ''dump'' of
        Inl e \<Rightarrow> (Inl e, n)
      | Inr sch \<Rightarrow>
          (case dump validating sch instance False n of
             (Inl e, n') \<Rightarrow> (Inl e, n')
           | (Inr (data, errors), n') \<Rightarrow>
               if errors \<noteq> [] then (Inl (ValidationError errors), n') else (Inr data, n')))"

text \<open>
  The body of the \<^verbatim>\<open>if not schema.is_valid_instance(instance)\<close> branch of \<^verbatim>\<open>_validate\<close>:
  \<^verbatim>\<open>instance.to_dict()\<close> inside the session (an entry \<^verbatim>\<open>to_dict\<close> of the instance's
  \<^verbatim>\<open>__dict__\<close> shadows the method and is not callable), the engine's \<^verbatim>\<open>validate\<close> on the
  result, then \<^verbatim>\<open>raise ValidationError(errors)\<close> or \<^verbatim>\<open>validate_model(instance)\<close>. The
  instance is returned as it is after the call.
\<close>

definition run_validation :: "registry \<Rightarrow> schema \<Rightarrow> pyval \<Rightarrow> nat \<Rightarrow> pyval outcome" where
  "run_validation reg sch instance n =
     (if has_attr instance ''to_dict'' then (Inl TypeError, n)
      else (case to_dict True reg instance n of
              (Inl e, n1) \<Rightarrow> (Inl e, n1)
            | (Inr data, n1) \<Rightarrow>
                (case schema_validate sch data n1 of
                   (errors, n2) \<Rightarrow>
                     if errors \<noteq> [] then (Inl (ValidationError errors), n2)
                     else (validate_model instance, n2))))"

text \<open>\<^verbatim>\<open>_SchemaBinder._validate(instance)\<close>\<close>

definition binder_validate :: "registry \<Rightarrow> pyval \<Rightarrow> nat \<Rightarrow> pyval outcome" where
  "binder_validate reg instance n =
     (case instance_schema reg instance ''is_valid_instance'' of
        Inl e \<Rightarrow> (Inl e, n)
      | Inr sch \<Rightarrow>
          if \<not> truthy (is_valid_instance instance) then run_validation reg sch instance n
          else (Inr instance, n))"

text \<open>\<^verbatim>\<open>_SchemaBinder._invalidate(instance)\<close>\<close>

definition binder_invalidate :: "registry \<Rightarrow> pyval \<Rightarrow> exn + pyval" where
  "binder_invalidate reg instance =
     (case instance_schema reg instance ''invalidate_instance'' of
        Inl e \<Rightarrow> Inl e
      | Inr sch \<Rightarrow> invalidate_instance instance)"

text \<open>
  The constructor of a bound class \<open>c\<close>: \<^verbatim>\<open>_decorated(self, **kwargs)\<close>, the wrapper that
  \<^verbatim>\<open>_validate_after_init\<close> puts around \<^verbatim>\<open>__init__\<close>. Its first parameter is named \<^verbatim>\<open>self\<close>, so
  a keyword of that name is a \<^verbatim>\<open>TypeError\<close>. The wrapped \<^verbatim>\<open>__init__\<close> is the one of
  \<^verbatim>\<open>SimpleNamespace\<close>, which \<^verbatim>\<open>BaseModel\<close> inherits: it stores the keyword arguments as the
  instance's attributes.
\<close>

definition validate_after_init :: "registry \<Rightarrow> nat \<Rightarrow> pydict \<Rightarrow> nat \<Rightarrow> pyval outcome" where
  "validate_after_init reg c kwargs n =
     (if map_of kwargs ''self'' \<noteq> None then (Inl TypeError, n)
      else
        (let has_validity_warranty =
               (case map_of kwargs ''__validity_warranty__'' of
                  Some v \<Rightarrow> v | None \<Rightarrow> PBool False);
             self = PObj c (AList.delete ''__validity_warranty__'' kwargs)
         in if truthy has_validity_warranty then
              (case instance_schema reg self ''validate_model'' of
                 Inl e \<Rightarrow> (Inl e, n)
               | Inr sch \<Rightarrow> (validate_model self, n))
            else if has_attr self ''_validate'' then (Inl TypeError, n)
            else binder_validate reg self n))"



text \<open>\<^verbatim>\<open>BaseSchema._make_model(data)\<close>: \<^verbatim>\<open>self.model_cls(**data, __validity_warranty__=True)\<close>.
  A keyword given twice is a \<^verbatim>\<open>TypeError\<close>. A schema that was never bound builds a plain
  \<^verbatim>\<open>SimpleNamespace\<close>, which keeps every keyword as an attribute; a bound class runs the
  wrapped constructor.\<close>

fun make_model :: "registry \<Rightarrow> schema \<Rightarrow> pyval \<Rightarrow> nat \<Rightarrow> pyval outcome" where
  "make_model reg self (PDict data) n =
     (if map_of data ''__validity_warranty__'' \<noteq> None then (Inl TypeError, n)
      else if model_cls self = SimpleNamespace then
        (Inr (PObj SimpleNamespace (data @ [(''__validity_warranty__'', PBool True)])), n)
      else validate_after_init reg (model_cls self)
             (data @ [(''__validity_warranty__'', PBool True)]) n)"
| "make_model reg self data n = (Inl TypeError, n)"

fun make_models :: "registry \<Rightarrow> schema \<Rightarrow> pyval list \<Rightarrow> nat \<Rightarrow> (pyval list) outcome" where
  "make_models reg self [] n = (Inr [], n)"
| "make_models reg self (d # ds) n =
     (case make_model reg self d n of
        (Inl e, n1) \<Rightarrow> (Inl e, n1)
      | (Inr m, n1) \<Rightarrow>
          (case make_models reg self ds n1 of
             (Inl e, n2) \<Rightarrow> (Inl e, n2)
           | (Inr ms, n2) \<Rightarrow> (Inr (m # ms), n2)))"

text \<open>
  Modelled from the spec: the engine's \<^verbatim>\<open>load\<close>. It validates, and when the error set is
  empty runs the post-load hooks: \<^verbatim>\<open>load_additional_data\<close> on the whole result (it is
  registered with \<^verbatim>\<open>pass_many=True\<close>), then \<^verbatim>\<open>_make_model\<close> on each element. An input that is
  not a mapping (not a list, in list mode) is an error of the error set.
\<close>

fun post_load :: "registry \<Rightarrow> schema \<Rightarrow> pyval \<Rightarrow> bool \<Rightarrow> nat \<Rightarrow> (pyval \<times> verr list) outcome" where
  "post_load reg self (PList rs) True n =
     (case make_models reg self rs n of
        (Inl e, n') \<Rightarrow> (Inl e, n')
      | (Inr ms, n') \<Rightarrow> (Inr (PList ms, []), n'))"
| "post_load reg self result True n = (Inl TypeError, n)"
| "post_load reg self result False n =
     (case make_model reg self result n of
        (Inl e, n') \<Rightarrow> (Inl e, n')
      | (Inr m, n') \<Rightarrow> (Inr (m, []), n'))"

definition finish_load ::
  "registry \<Rightarrow> schema \<Rightarrow> pyval \<Rightarrow> verr list \<Rightarrow> bool \<Rightarrow> pyval \<Rightarrow> nat \<Rightarrow> (pyval \<times> verr list) outcome" where
  "finish_load reg self result errors many data n =
     (if errors \<noteq> [] then (Inr (result, errors), n)
      else (case load_additional_data result many data of
              Inl e \<Rightarrow> (Inl e, n)
            | Inr result' \<Rightarrow> post_load reg self result' many n))"

fun super_load :: "registry \<Rightarrow> schema \<Rightarrow> pyval \<Rightarrow> bool \<Rightarrow> nat \<Rightarrow> (pyval \<times> verr list) outcome" where
  "super_load reg self (PDict d) False n =
     (case unmarshal (declared_fields self) None d n of
        (r, errors, n') \<Rightarrow> finish_load reg self (PDict r) errors False (PDict d) n')"
| "super_load reg self data False n = (Inr (PNone, [InvalidInputType None]), n)"
| "super_load reg self (PList xs) True n =
     (case unmarshal_many (declared_fields self) 0 xs n of
        (rs, errors, n') \<Rightarrow> finish_load reg self (PList rs) errors True (PList xs) n')"
| "super_load reg self data True n = (Inr (PList [], [InvalidInputType None]), n)"

text \<open>\<^verbatim>\<open>BaseSchema.load(data, many)\<close>\<close>

definition load :: "registry \<Rightarrow> schema \<Rightarrow> pyval \<Rightarrow> bool \<Rightarrow> nat \<Rightarrow> (pyval \<times> verr list) outcome" where
  "load reg self data many n =
     (if data = VALID_MODEL then (Inr (data, []), n) else super_load reg self data many n)"

text \<open>\<^verbatim>\<open>_SchemaBinder._from_dict(decorated_cls, dict_)\<close>\<close>

definition from_dict :: "registry \<Rightarrow> nat \<Rightarrow> pyval \<Rightarrow> nat \<Rightarrow> pyval outcome" where
  "from_dict reg decorated_cls dict_in n =
     (case reg decorated_cls of
        None \<Rightarrow> (Inl AttributeError, n)
      | Some sch \<Rightarrow>
          (case load reg sch dict_in False n of
             (Inl e, n') \<Rightarrow> (Inl e, n')
           | (Inr (data, errors), n') \<Rightarrow>
               if errors \<noteq> [] then (Inl (ValidationError errors), n') else (Inr data, n')))"

text \<open>What \<^verbatim>\<open>bind_schema\<close> establishes between a model class \<open>c\<close> and the schema instance
  it stores on the class: each refers to the other.\<close>

definition bound :: "registry \<Rightarrow> nat \<Rightarrow> schema \<Rightarrow> bool" where
  "bound reg c sch \<longleftrightarrow> c \<noteq> SimpleNamespace \<and> reg c = Some sch \<and> model_cls sch = c"

section \<open>Binding a schema class to a model class\<close>






section \<open>Sample schemas\<close>

text \<open>
  Modelled from the spec: two field validators in the manner of marshmallow's \<^verbatim>\<open>String\<close> and
  \<^verbatim>\<open>Integer\<close> fields (the spec's Field Validator confirms, rejects or coerces a value). The
  string field accepts strings unchanged; the integer field accepts an integer and coerces a
  string of decimal digits to the integer it denotes. They serve as concrete inputs.
\<close>

definition string_field :: "string \<Rightarrow> bool \<Rightarrow> fieldspec" where
  "string_field name req =
     \<lparr>fname = name, required = req,
      deserialize = (\<lambda>v. case v of PStr s \<Rightarrow> Inr (PStr s) | _ \<Rightarrow> Inl ''Not a valid string.''),
      serialize = (\<lambda>v. case v of PStr s \<Rightarrow> Inr (PStr s) | _ \<Rightarrow> Inl ''Not a valid string.'')\<rparr>"

definition digit_of :: "char \<Rightarrow> nat option" where
  "digit_of ch =
     (if ch = CHR ''0'' then Some 0 else if ch = CHR ''1'' then Some 1
      else if ch = CHR ''2'' then Some 2 else if ch = CHR ''3'' then Some 3
      else if ch = CHR ''4'' then Some 4 else if ch = CHR ''5'' then Some 5
      else if ch = CHR ''6'' then Some 6 else if ch = CHR ''7'' then Some 7
      else if ch = CHR ''8'' then Some 8 else if ch = CHR ''9'' then Some 9
      else None)"

fun parse_digits :: "nat \<Rightarrow> string \<Rightarrow> nat option" where
  "parse_digits acc [] = Some acc"
| "parse_digits acc (ch # s) =
     (case digit_of ch of None \<Rightarrow> None | Some d \<Rightarrow> parse_digits (10 * acc + d) s)"

definition integer_field :: "string \<Rightarrow> bool \<Rightarrow> fieldspec" where
  "integer_field name req =
     \<lparr>fname = name, required = req,
      deserialize =
        (\<lambda>v. case v of
                PInt i \<Rightarrow> Inr (PInt i)
              | PStr s \<Rightarrow>
                  (if s = [] then Inl ''Not a valid integer.''
                   else (case parse_digits 0 s of
                           None \<Rightarrow> Inl ''Not a valid integer.''
                         | Some k \<Rightarrow> Inr (PInt (int k))))
              | _ \<Rightarrow> Inl ''Not a valid integer.''),
      serialize = (\<lambda>v. case v of PInt i \<Rightarrow> Inr (PInt i) | _ \<Rightarrow> Inl ''Not a valid integer.'')\<rparr>"

text \<open>
  \<^verbatim>\<open>class PersonSchema(BaseSchema): name = String(required=True)\<close>, bound to the model class
  \<open>1\<close> (\<^verbatim>\<open>Person\<close>, as in the module's docstring), and a schema with one required integer
  field \<open>n\<close>, bound to the model class \<open>2\<close>.
\<close>

definition PersonSchema :: schema where
  "PersonSchema = \<lparr>declared_fields = [string_field ''name'' True], model_cls = 1\<rparr>"

definition CountSchema :: schema where
  "CountSchema = \<lparr>declared_fields = [integer_field ''n'' True], model_cls = 2\<rparr>"

definition sample_registry :: registry where
  "sample_registry c =
     (if c = 1 then Some PersonSchema else if c = 2 then Some CountSchema else None)"

definition ada :: pyval where
  "ada = PObj 1 [(''name'', PStr ''Ada''), (''tag'', PStr ''x'')]"




text \<open>An instance of \<open>Person\<close> already marked valid, and an instance of another class with
  the same field.\<close>

definition valid_ada :: pyval where
  "valid_ada =
     PObj 1 [(''name'', PStr ''Ada''), (''tag'', PStr ''x''), (''__is_valid__'', PBool True)]"

definition stranger :: pyval where
  "stranger = PObj 3 [(''name'', PStr ''Ada'')]"

text \<open>A subclass of \<^verbatim>\<open>BaseSchema\<close> with no declared field that was never bound: it has the
  inherited \<^verbatim>\<open>model_cls = SimpleNamespace\<close>.\<close>

definition UnboundSchema :: schema where
  "UnboundSchema = \<lparr>declared_fields = [], model_cls = SimpleNamespace\<rparr>"

definition invalid_ada :: pyval where
  "invalid_ada =
     PObj 1 [(''name'', PStr ''Ada''), (''tag'', PStr ''x''), (''__is_valid__'', PBool False)]"

definition bob :: pyval where
  "bob = PObj 1 [(''name'', PStr ''Bob''), (''tag'', PStr ''y'')]"

lemmas sample_defs = PersonSchema_def CountSchema_def sample_registry_def string_field_def
  integer_field_def ada_def valid_ada_def stranger_def bob_def UnboundSchema_def invalid_ada_def
  SimpleNamespace_def

lemmas binder_defs = binder_validate_def run_validation_def to_dict_def dump_def post_dump_def
  binder_invalidate_def validate_after_init_def from_dict_def load_def finish_load_def

lemmas hook_defs = copy_keys_def dump_additional_keys_def load_additional_keys_def black_list_def
  getattr.simps

section \<open>Properties of the unknown-field hooks\<close>

lemma map_of_copy_keys:
  "map_of (copy_keys ks src valid) k =
     (if k \<in> set ks \<and> src k \<noteq> None then src k else map_of valid k)"
  unfolding copy_keys_def
  by (induction ks arbitrary: valid) (auto simp: update_conv' split: option.splits)

lemma map_of_load_merge:
  "map_of (copy_keys (load_additional_keys original valid) (map_of original) valid) k =
     (case map_of valid k of Some v \<Rightarrow> Some v | None \<Rightarrow> map_of original k)"
proof (cases "map_of valid k")
  case None
  then have "k \<notin> set (map fst valid)" by (simp add: map_of_eq_None_iff)
  moreover have "map_of original k \<noteq> None \<Longrightarrow> k \<in> set (map fst original)"
    by (simp add: map_of_eq_None_iff)
  ultimately show ?thesis using None
    by (cases "map_of original k") (simp_all add: map_of_copy_keys load_additional_keys_def)
next
  case (Some v)
  then have "k \<in> set (map fst valid)" by (metis map_of_eq_None_iff option.distinct(1) set_map)
  then show ?thesis using Some
    by (simp add: map_of_copy_keys load_additional_keys_def)
qed

lemma getattr_present: "map_of attrs k \<noteq> None \<Longrightarrow> getattr (PObj c attrs) k \<noteq> None"
  by (simp add: getattr.simps)

lemma getattr_plain:
  "k \<notin> set (data_descriptors c) \<Longrightarrow> getattr (PObj c attrs) k = map_of attrs k"
  by (auto simp: getattr.simps data_descriptors_def split: if_splits)

lemma map_of_dump_merge:
  "map_of (copy_keys (dump_additional_keys attrs valid) (getattr (PObj c attrs)) valid) k =
     (case map_of valid k of
        Some v \<Rightarrow> Some v
      | None \<Rightarrow> if k \<in> set black_list \<or> map_of attrs k = None then None
                else getattr (PObj c attrs) k)"
proof (cases "map_of valid k")
  case None
  then have nv: "k \<notin> set (map fst valid)" by (simp add: map_of_eq_None_iff)
  show ?thesis
  proof (cases "k \<in> set black_list \<or> map_of attrs k = None")
    case True
    then have "k \<notin> set (dump_additional_keys attrs valid)"
      by (auto simp: dump_additional_keys_def map_of_eq_None_iff)
    with None True show ?thesis by (simp add: map_of_copy_keys)
  next
    case False
    then have "k \<in> set (map fst attrs)" by (simp add: map_of_eq_None_iff)
    with False nv have "k \<in> set (dump_additional_keys attrs valid)"
      by (simp add: dump_additional_keys_def)
    moreover from False have "getattr (PObj c attrs) k \<noteq> None" by (simp add: getattr_present)
    ultimately show ?thesis using None False
      by (auto simp: map_of_copy_keys)
  qed
next
  case (Some v)
  then have "k \<in> set (map fst valid)" by (metis map_of_eq_None_iff option.distinct(1) set_map)
  then show ?thesis using Some
    by (simp add: map_of_copy_keys dump_additional_keys_def)
qed

lemma dump_additional_one_shape: "dump_additional_one v orig = Inr r \<Longrightarrow> \<exists>d. r = PDict d"
  by (cases "(v, orig)" rule: dump_additional_one.cases) auto

lemma dump_additional_data_shape:
  "dump_additional_data v many orig = Inr r \<Longrightarrow> r \<noteq> VALID_MODEL"
  by (cases "(v, many, orig)" rule: dump_additional_data.cases)
     (auto split: sum.splits dest: dump_additional_one_shape)



section \<open>Properties of the engine's dump\<close>

lemma marshal_errors:
  "marshal fs idx obj n = (d, errs, n') \<Longrightarrow> e \<in> set errs \<Longrightarrow> \<exists>f msg. e = FieldError idx f msg"
  by (induction fs arbitrary: d errs n n') (auto split: option.splits prod.splits sum.splits)

lemma marshal_many_errors:
  "marshal_many fs i xs n = (ds, errs, n') \<Longrightarrow> e \<in> set errs \<Longrightarrow>
     \<exists>j f msg. e = FieldError j f msg"
  by (induction xs arbitrary: i ds errs n n') (auto split: prod.splits dest: marshal_errors)

lemma post_dump_shape:
  "post_dump result errors many obj n = (Inr (data, errs), n') \<Longrightarrow> result \<noteq> VALID_MODEL \<Longrightarrow>
     data \<noteq> VALID_MODEL \<and> errs = errors"
  by (auto simp: post_dump_def split: if_splits sum.splits dest: dump_additional_data_shape)

lemma super_dump_shape:
  "super_dump sch obj many n = (Inr (data, errs), n') \<Longrightarrow>
     data \<noteq> VALID_MODEL \<and> (\<forall>e \<in> set errs. \<exists>j f msg. e = FieldError j f msg)"
  by (cases "(sch, obj, many, n)" rule: super_dump.cases)
     (auto split: prod.splits dest!: post_dump_shape dest: marshal_errors marshal_many_errors)

section \<open>BaseSchema.dump: the two special branches\<close>

text \<open>
  C10: both special branches of \<^verbatim>\<open>BaseSchema.dump\<close> (the valid-sentinel short-circuit and the
  wrong-type error) are taken only while a validation-recording session is active. Outside a
  session, \<open>dump\<close> of any value is the engine's field-by-field walk; and a result whose data is
  the sentinel, or whose error set holds a not-an-instance error, can only come from a call
  inside a session.
\<close>

theorem dump_special_branches_only_while_validating:
  "dump False sch obj many n = super_dump sch obj many n \<and>
   (dump validating sch obj many n = (Inr (data, errors), n') \<longrightarrow>
      (data = VALID_MODEL \<or> (\<exists>c v. NotAnInstance c v \<in> set errors)) \<longrightarrow> validating)"
  by (auto simp: dump_def dest!: super_dump_shape)

text \<open>Outside a session an instance already marked valid is walked (one field-validator
  call), and a non-instance reaches the engine, whose post-dump hook finds no \<^verbatim>\<open>__dict__\<close> on
  an integer; inside a session the non-instance is reported as such.\<close>

theorem dump_special_branches_witness:
  "dump False PersonSchema valid_ada False 0 = super_dump PersonSchema valid_ada False 0 \<and>
   super_dump PersonSchema valid_ada False 0
     = (Inr (PDict [(''name'', PStr ''Ada''), (''tag'', PStr ''x'')], []), 1) \<and>
   dump True PersonSchema (PInt 7) False 0 = (Inr (PInt 7, [NotAnInstance 1 (PInt 7)]), 0) \<and>
   dump False PersonSchema (PInt 7) False 0 = (Inl AttributeError, 0)"
  using dump_special_branches_only_while_validating
          [of PersonSchema valid_ada False 0 True "PInt 7" "[NotAnInstance 1 (PInt 7)]" 0]
  by (simp add: dump_def sample_defs post_dump_def hook_defs)

text \<open>
  C5: while a validation-recording session is active, \<open>dump\<close> of an instance of the bound model
  type whose validity flag is true returns the sentinel \<open>VALID_MODEL\<close> with an empty error set
  and without any field-validator call; and \<open>load\<close> of the sentinel returns it unchanged with
  an empty error set.
\<close>

theorem dump_valid_instance_short_circuit:
  "isinstance obj (model_cls sch) \<Longrightarrow> truthy (is_valid_instance obj) \<Longrightarrow>
     dump True sch obj many n = (Inr (VALID_MODEL, []), n) \<and>
     load reg sch VALID_MODEL many n = (Inr (VALID_MODEL, []), n)"
  by (simp add: dump_def load_def)

theorem dump_valid_instance_short_circuit_witness:
  "isinstance valid_ada (model_cls PersonSchema) \<and> truthy (is_valid_instance valid_ada) \<and>
   dump True PersonSchema valid_ada False 0 = (Inr (VALID_MODEL, []), 0) \<and>
   load sample_registry PersonSchema VALID_MODEL False 0 = (Inr (VALID_MODEL, []), 0)"
proof -
  have h1: "isinstance valid_ada (model_cls PersonSchema)" by (simp add: sample_defs)
  have h2: "truthy (is_valid_instance valid_ada)" by (simp add: sample_defs)
  show ?thesis
    using h1 h2 dump_valid_instance_short_circuit [OF h1 h2, of False 0 sample_registry] by simp
qed

text \<open>
  C4, as amended: while a validation-recording session is active, \<open>dump\<close> of a value that is
  not an instance of the bound model type (the sentinel included) returns, without raising
  and without any field-validator call, the value itself with the single error
  \<open>NotAnInstance\<close>. Outside a session there is no such check.
\<close>

theorem dump_non_instance_while_validating:
  "\<not> isinstance v (model_cls sch) \<Longrightarrow>
     dump True sch v many n = (Inr (v, [NotAnInstance (model_cls sch) v]), n)"
  by (simp add: dump_def)

theorem dump_non_instance_witness:
  "\<not> isinstance stranger (model_cls PersonSchema) \<and>
   dump True PersonSchema stranger False 0 = (Inr (stranger, [NotAnInstance 1 stranger]), 0)"
proof -
  have h: "\<not> isinstance stranger (model_cls PersonSchema)" by (simp add: sample_defs)
  show ?thesis using h dump_non_instance_while_validating [OF h, of False 0]
    by (simp add: sample_defs)
qed

text \<open>The claim without the session: outside one, an instance of another class is dumped
  field by field, with no error.\<close>

theorem dump_non_instance_outside_session:
  "\<not> isinstance stranger (model_cls PersonSchema) \<and> stranger \<noteq> VALID_MODEL \<and>
   dump False PersonSchema stranger False 0 = (Inr (PDict [(''name'', PStr ''Ada'')], []), 1)"
  by (simp add: dump_def sample_defs post_dump_def hook_defs)

section \<open>Binding\<close>



section \<open>Required fields\<close>

lemma unmarshal_missing_required:
  "f \<in> set fs \<Longrightarrow> required f \<Longrightarrow> map_of d (fname f) = None \<Longrightarrow>
   unmarshal fs idx d n = (r, errs, n') \<Longrightarrow>
     FieldError idx (fname f) ''Missing data for required field.'' \<in> set errs"
  by (induction fs arbitrary: r errs n n')
     (auto split: option.splits prod.splits sum.splits if_splits)

text \<open>
  C6: for every mapping that lacks a required declared field, \<^verbatim>\<open>from_dict\<close> raises
  \<^verbatim>\<open>ValidationError\<close>, and its error set names that field.
\<close>

theorem from_dict_missing_required_field:
  assumes "reg c = Some sch" and "f \<in> set (declared_fields sch)" and "required f"
    and "map_of m (fname f) = None"
  shows "\<exists>errs n'. from_dict reg c (PDict m) n = (Inl (ValidationError errs), n') \<and>
           FieldError None (fname f) ''Missing data for required field.'' \<in> set errs"
proof -
  obtain r errs n' where u: "unmarshal (declared_fields sch) None m n = (r, errs, n')"
    by (cases "unmarshal (declared_fields sch) None m n") auto
  from unmarshal_missing_required [OF assms(2,3,4) u]
  have mem: "FieldError None (fname f) ''Missing data for required field.'' \<in> set errs" .
  then have "errs \<noteq> []" by auto
  with u assms(1) have "from_dict reg c (PDict m) n = (Inl (ValidationError errs), n')"
    by (simp add: from_dict_def load_def finish_load_def)
  with mem show ?thesis by blast
qed

theorem from_dict_missing_required_field_witness:
  "sample_registry 1 = Some PersonSchema \<and>
   string_field ''name'' True \<in> set (declared_fields PersonSchema) \<and>
   required (string_field ''name'' True) \<and>
   map_of [(''tag'', PStr ''x'')] (fname (string_field ''name'' True)) = None \<and>
   from_dict sample_registry 1 (PDict [(''tag'', PStr ''x'')]) 0
     = (Inl (ValidationError [FieldError None ''name'' ''Missing data for required field.'']), 0)"
proof -
  have h1: "sample_registry 1 = Some PersonSchema" by (simp add: sample_registry_def)
  have h2: "string_field ''name'' True \<in> set (declared_fields PersonSchema)"
    by (simp add: PersonSchema_def)
  have h3: "required (string_field ''name'' True)" by (simp add: string_field_def)
  have h4: "map_of [(''tag'', PStr ''x'')] (fname (string_field ''name'' True)) = None"
    by (simp add: string_field_def)
  show ?thesis
    using h1 h2 h3 h4
      from_dict_missing_required_field
        [of sample_registry 1 PersonSchema "string_field ''name'' True" "[(''tag'', PStr ''x'')]" 0]
    by (simp add: from_dict_def load_def finish_load_def sample_defs)
qed

section \<open>Construction and loading\<close>


lemma delete_append_fresh: "map_of kwargs k = None \<Longrightarrow> AList.delete k (kwargs @ [(k, v)]) = kwargs"
  by (induction kwargs) (auto split: if_splits)

lemma map_of_append_fresh: "map_of kwargs k = None \<Longrightarrow> map_of (kwargs @ [(k, v)]) k = Some v"
  by (induction kwargs) (auto split: if_splits)

lemma instance_schema_ok:
  "instance_schema reg x meth = Inr sch \<longleftrightarrow>
     (\<exists>c attrs. x = PObj c attrs \<and> map_of attrs ''schema'' = None \<and> reg c = Some sch)"
  by (cases x) (auto split: option.splits)

lemma instance_schema_meth:
  "instance_schema reg x meth = Inr sch \<Longrightarrow> instance_schema reg x meth' = Inr sch"
  by (simp add: instance_schema_ok)

lemma validate_after_init_trusted:
  "map_of kwargs ''__validity_warranty__'' = None \<Longrightarrow> map_of kwargs ''self'' = None \<Longrightarrow>
   validate_after_init reg c (kwargs @ [(''__validity_warranty__'', PBool True)]) n =
     (case instance_schema reg (PObj c kwargs) ''validate_model'' of
        Inl e \<Rightarrow> (Inl e, n)
      | Inr sch \<Rightarrow> (Inr (PObj c (AList.update ''__is_valid__'' (PBool True) kwargs)), n))"
  by (simp add: validate_after_init_def delete_append_fresh map_add_def Let_def
      split: sum.splits)

lemma make_model_bound_ok:
  assumes "make_model reg sch v n = (Inr x, n')" and "model_cls sch \<noteq> SimpleNamespace"
  shows "\<exists>data. v = PDict data \<and> map_of data ''__validity_warranty__'' = None \<and>
           map_of data ''self'' = None \<and>
           map_of data ''schema'' = None \<and> reg (model_cls sch) \<noteq> None \<and>
           x = PObj (model_cls sch) (AList.update ''__is_valid__'' (PBool True) data) \<and> n' = n"
proof (cases v)
  case (PDict data)
  show ?thesis
  proof (cases "map_of data ''self''")
    case None
    with PDict assms show ?thesis
      by (auto simp: validate_after_init_trusted split: if_splits sum.splits option.splits)
  next
    case (Some w)
    with PDict assms show ?thesis
      by (auto simp: validate_after_init_def map_add_def split: if_splits)
  qed
qed (use assms in auto)

lemma from_dict_ok:
  assumes "from_dict reg c (PDict m) n = (Inr x, n')" and "reg c = Some sch"
    and "model_cls sch \<noteq> SimpleNamespace"
  shows "\<exists>r data. unmarshal (declared_fields sch) None m n = (r, [], n') \<and>
           data = copy_keys (load_additional_keys m r) (map_of m) r \<and>
           map_of data ''__validity_warranty__'' = None \<and>
           map_of data ''self'' = None \<and>
           map_of data ''schema'' = None \<and> reg (model_cls sch) \<noteq> None \<and>
           x = PObj (model_cls sch) (AList.update ''__is_valid__'' (PBool True) data)"
proof -
  obtain r errs n1 where u: "unmarshal (declared_fields sch) None m n = (r, errs, n1)"
    by (cases "unmarshal (declared_fields sch) None m n") auto
  from assms(1,2) u have e: "errs = []"
    by (auto simp: from_dict_def load_def finish_load_def split: if_splits)
  from assms(1,2) u e
  have "make_model reg sch (PDict (copy_keys (load_additional_keys m r) (map_of m) r)) n1 = (Inr x, n')"
    by (auto simp: from_dict_def load_def finish_load_def split: if_splits sum.splits prod.splits)
  from make_model_bound_ok [OF this assms(3)] u e show ?thesis by auto
qed

section \<open>Validation and its cost\<close>

lemma run_validation_ok:
  "run_validation reg sch (PObj c attrs) n = (Inr x', n') \<Longrightarrow>
     x' = PObj c (AList.update ''__is_valid__'' (PBool True) attrs)"
  by (auto simp: run_validation_def split: if_splits prod.splits sum.splits)

lemma binder_validate_ok:
  assumes "binder_validate reg x n = (Inr x', n')"
  shows "\<exists>c attrs sch. x = PObj c attrs \<and> map_of attrs ''schema'' = None \<and> reg c = Some sch \<and>
           ((truthy (is_valid_instance x) \<and> x' = x \<and> n' = n) \<or>
            (\<not> truthy (is_valid_instance x) \<and>
             x' = PObj c (AList.update ''__is_valid__'' (PBool True) attrs) \<and>
             run_validation reg sch x n = (Inr x', n')))"
proof -
  from assms obtain sch where s: "instance_schema reg x ''is_valid_instance'' = Inr sch"
    by (auto simp: binder_validate_def split: sum.splits)
  then obtain c attrs where x: "x = PObj c attrs" "map_of attrs ''schema'' = None" "reg c = Some sch"
    by (auto simp: instance_schema_ok)
  show ?thesis
  proof (cases "truthy (is_valid_instance x)")
    case True
    with assms s x show ?thesis by (auto simp: binder_validate_def)
  next
    case False
    with assms s have r: "run_validation reg sch x n = (Inr x', n')"
      by (auto simp: binder_validate_def)
    with x run_validation_ok [of reg sch c attrs n x' n'] False show ?thesis by auto
  qed
qed

lemma setattr_flag:
  assumes "setattr u k v = Inr u'"
  shows "is_valid_instance u' = (if k = ''__is_valid__'' then v else is_valid_instance u)"
proof (cases u)
  case (PObj c attrs)
  show ?thesis
  proof (cases "k = ''__class__''")
    case True
    with PObj assms obtain c' where "v = PClass c'" "u' = PObj c' attrs"
      by (cases v) (auto split: if_splits)
    with PObj True show ?thesis by simp
  next
    case False
    with PObj assms have "u' = PObj c (AList.update k v attrs)" by (auto split: if_splits)
    with PObj show ?thesis by (simp add: update_conv')
  qed
qed (use assms in auto)

lemma binder_validate_valid:
  "truthy (is_valid_instance y) \<Longrightarrow> snd (binder_validate reg y m) = m"
  by (auto simp: binder_validate_def split: sum.splits)

lemma marshal_count:
  "marshal fs idx obj n = (d, errs, n') \<Longrightarrow>
     n' = n + length (filter (\<lambda>f. get_value (fname f) obj \<noteq> None) fs)"
proof (induction fs arbitrary: d errs n n')
  case Nil
  then show ?case by simp
next
  case (Cons f fs)
  show ?case
  proof (cases "get_value (fname f) obj")
    case None
    with Cons show ?thesis by simp
  next
    case (Some v)
    obtain d1 e1 k where r: "marshal fs idx obj (Suc n) = (d1, e1, k)"
      by (cases "marshal fs idx obj (Suc n)") auto
    from Cons.IH [OF r] Cons.prems Some r show ?thesis
      by (auto split: sum.splits)
  qed
qed

lemma unmarshal_mono: "unmarshal fs idx data n = (r, errs, n') \<Longrightarrow> n \<le> n'"
  by (induction fs arbitrary: r errs n n')
     (fastforce split: option.splits prod.splits sum.splits if_splits)+

lemma schema_validate_mono: "schema_validate sch data n = (errs, n') \<Longrightarrow> n \<le> n'"
  by (cases data) (auto split: prod.splits dest: unmarshal_mono)

lemma post_dump_count: "snd (post_dump result errors many obj n) = n"
  by (simp add: post_dump_def split: sum.splits)

lemma filter_length_mono:
  "(\<And>x. x \<in> set xs \<Longrightarrow> P x \<Longrightarrow> Q x) \<Longrightarrow> length (filter P xs) \<le> length (filter Q xs)"
  by (induction xs) auto

lemma run_validation_count:
  assumes "bound reg c sch" and "map_of attrs ''schema'' = None"
    and "map_of attrs ''to_dict'' = None" and "\<not> truthy (is_valid_instance (PObj c attrs))"
  shows "n + length (filter (\<lambda>f. map_of attrs (fname f) \<noteq> None) (declared_fields sch))
           \<le> snd (run_validation reg sch (PObj c attrs) n)"
proof -
  let ?x = "PObj c attrs"
  obtain d errs n1 where m: "marshal (declared_fields sch) None ?x n = (d, errs, n1)"
    by (cases "marshal (declared_fields sch) None ?x n") auto
  have "length (filter (\<lambda>f. map_of attrs (fname f) \<noteq> None) (declared_fields sch))
          \<le> length (filter (\<lambda>f. get_value (fname f) ?x \<noteq> None) (declared_fields sch))"
    by (rule filter_length_mono) (simp add: getattr_present)
  with marshal_count [OF m]
  have n1: "n + length (filter (\<lambda>f. map_of attrs (fname f) \<noteq> None) (declared_fields sch)) \<le> n1"
    by simp
  from assms m have td: "snd (to_dict True reg ?x n) = n1"
    using post_dump_count [of "PDict d" errs False ?x n1]
    by (auto simp: to_dict_def dump_def bound_def split: sum.splits prod.splits)
  show ?thesis
  proof (cases "to_dict True reg ?x n")
    case (Pair res k)
    with td have k: "k = n1" by simp
    show ?thesis
    proof (cases res)
      case (Inl e)
      with Pair k assms(3) n1 show ?thesis by (simp add: run_validation_def)
    next
      case (Inr data)
      obtain es n2 where v: "schema_validate sch data n1 = (es, n2)"
        by (cases "schema_validate sch data n1") auto
      from schema_validate_mono [OF v] have "n1 \<le> n2" .
      with Inr Pair k assms(3) n1 v show ?thesis by (simp add: run_validation_def)
    qed
  qed
qed

section \<open>What the engine's walks return\<close>

lemma unmarshal_undeclared:
  "unmarshal fs idx data n = (r, errs, n') \<Longrightarrow> k \<notin> fname ` set fs \<Longrightarrow> map_of r k = None"
  by (induction fs arbitrary: r errs n n')
     (auto split: option.splits prod.splits sum.splits if_splits)

lemma unmarshal_declared:
  "unmarshal fs idx data n = (r, [], n') \<Longrightarrow> distinct (map fname fs) \<Longrightarrow> f \<in> set fs \<Longrightarrow>
     (case map_of data (fname f) of
        None \<Rightarrow> map_of r (fname f) = None
      | Some v \<Rightarrow> \<exists>v'. deserialize f v = Inr v' \<and> map_of r (fname f) = Some v')"
proof (induction fs arbitrary: r n n')
  case Nil
  then show ?case by simp
next
  case (Cons g fs)
  show ?case
  proof (cases "map_of data (fname g)")
    case None
    with Cons.prems(1) have u: "unmarshal fs idx data n = (r, [], n')"
      by (auto split: prod.splits if_splits)
    show ?thesis
    proof (cases "f = g")
      case True
      with None unmarshal_undeclared [OF u, of "fname g"] Cons.prems(2) show ?thesis by auto
    next
      case False
      with Cons.prems(3) have "f \<in> set fs" by simp
      with Cons.IH [OF u] Cons.prems(2) show ?thesis by simp
    qed
  next
    case (Some v)
    with Cons.prems(1) obtain r1 v' where
      u: "unmarshal fs idx data (Suc n) = (r1, [], n')" and dv: "deserialize g v = Inr v'"
      and r: "r = (fname g, v') # r1"
      by (auto split: prod.splits sum.splits)
    show ?thesis
    proof (cases "f = g")
      case True
      with Some dv r show ?thesis by simp
    next
      case False
      with Cons.prems(3) have fs: "f \<in> set fs" by simp
      with Cons.prems(2) have "fname f \<noteq> fname g" by (auto simp: image_iff)
      with Cons.IH [OF u _ fs] Cons.prems(2) r show ?thesis
        by (auto split: option.splits)
    qed
  qed
qed

lemma marshal_undeclared:
  "marshal fs idx obj n = (d, errs, n') \<Longrightarrow> k \<notin> fname ` set fs \<Longrightarrow> map_of d k = None"
proof (induction fs arbitrary: d errs n n')
  case Nil
  then show ?case by simp
next
  case (Cons g fs)
  show ?case
  proof (cases "get_value (fname g) obj")
    case None
    with Cons show ?thesis by simp
  next
    case (Some v)
    obtain d1 e1 j where r: "marshal fs idx obj (Suc n) = (d1, e1, j)"
      by (cases "marshal fs idx obj (Suc n)") auto
    from Cons.IH [OF r] Cons.prems Some r show ?thesis
      by (auto split: sum.splits)
  qed
qed

lemma marshal_declared:
  "marshal fs idx obj n = (d, [], n') \<Longrightarrow> distinct (map fname fs) \<Longrightarrow> f \<in> set fs \<Longrightarrow>
     (case get_value (fname f) obj of
        None \<Rightarrow> map_of d (fname f) = None
      | Some v \<Rightarrow> \<exists>w. serialize f v = Inr w \<and> map_of d (fname f) = Some w)"
proof (induction fs arbitrary: d n n')
  case Nil
  then show ?case by simp
next
  case (Cons g fs)
  show ?case
  proof (cases "get_value (fname g) obj")
    case None
    with Cons.prems(1) have u: "marshal fs idx obj n = (d, [], n')" by simp
    show ?thesis
    proof (cases "f = g")
      case True
      with None marshal_undeclared [OF u, of "fname g"] Cons.prems(2) show ?thesis by auto
    next
      case False
      with Cons.prems(3) have "f \<in> set fs" by simp
      with Cons.IH [OF u] Cons.prems(2) show ?thesis by simp
    qed
  next
    case (Some v)
    with Cons.prems(1) obtain d1 w where
      u: "marshal fs idx obj (Suc n) = (d1, [], n')" and sv: "serialize g v = Inr w"
      and r: "d = (fname g, w) # d1"
      by (auto split: prod.splits sum.splits)
    show ?thesis
    proof (cases "f = g")
      case True
      with Some sv r show ?thesis by simp
    next
      case False
      with Cons.prems(3) have fs: "f \<in> set fs" by simp
      with Cons.prems(2) have "fname f \<noteq> fname g" by (auto simp: image_iff)
      with Cons.IH [OF u _ fs] Cons.prems(2) r show ?thesis
        by (auto split: option.splits)
    qed
  qed
qed

lemma marshal_no_errors:
  "(\<forall>f \<in> set fs. \<forall>v. get_value (fname f) obj = Some v \<longrightarrow> (\<exists>w. serialize f v = Inr w)) \<Longrightarrow>
     \<exists>d n'. marshal fs idx obj n = (d, [], n')"
proof (induction fs arbitrary: n)
  case Nil
  then show ?case by simp
next
  case (Cons g fs)
  show ?case
  proof (cases "get_value (fname g) obj")
    case None
    with Cons show ?thesis by simp
  next
    case (Some v)
    from Cons.prems Some obtain w where w: "serialize g v = Inr w" by auto
    from Cons.IH [of "Suc n"] Cons.prems obtain d1 j where
      "marshal fs idx obj (Suc n) = (d1, [], j)" by auto
    with Some w show ?thesis by simp
  qed
qed

section \<open>The validation cache\<close>

text \<open>
  C3: once \<^verbatim>\<open>_validate(x)\<close> has succeeded, a second \<^verbatim>\<open>_validate\<close> is a no-op: it returns the
  same instance and leaves the counter of field-validator calls where it was, and this stays
  so after any assignment to an attribute other than the flag. After \<^verbatim>\<open>_invalidate\<close> (which
  succeeds) the flag is false and the next \<^verbatim>\<open>_validate\<close> is the full validation
  \<open>run_validation\<close>, which, for an instance of a bound class, calls a field validator at
  least once for every declared field the instance has.
\<close>

theorem validate_cached_until_invalidate:
  assumes "binder_validate reg x n = (Inr x1, n1)"
  shows "binder_validate reg x1 m = (Inr x1, m) \<and>
         (\<forall>k v y. k \<noteq> ''__is_valid__'' \<longrightarrow> setattr x1 k v = Inr y \<longrightarrow>
            snd (binder_validate reg y m) = m) \<and>
         (\<exists>c attrs sch.
            binder_invalidate reg x1 = Inr (PObj c attrs) \<and> reg c = Some sch \<and>
            \<not> truthy (is_valid_instance (PObj c attrs)) \<and>
            binder_validate reg (PObj c attrs) m = run_validation reg sch (PObj c attrs) m \<and>
            (bound reg c sch \<longrightarrow> map_of attrs ''to_dict'' = None \<longrightarrow>
               m + length (filter (\<lambda>f. map_of attrs (fname f) \<noteq> None) (declared_fields sch))
                 \<le> snd (binder_validate reg (PObj c attrs) m)))"
proof -
  from binder_validate_ok [OF assms] obtain c attrs sch where
    x: "x = PObj c attrs" "map_of attrs ''schema'' = None" "reg c = Some sch"
    and d: "(truthy (is_valid_instance x) \<and> x1 = x) \<or>
            (\<not> truthy (is_valid_instance x) \<and>
             x1 = PObj c (AList.update ''__is_valid__'' (PBool True) attrs))"
    by blast
  from x d obtain attrs1 where
    x1: "x1 = PObj c attrs1" "map_of attrs1 ''schema'' = None" "truthy (is_valid_instance x1)"
    by (auto simp: update_conv')
  have s1: "instance_schema reg x1 meth = Inr sch" for meth
    using x1 x(3) by simp
  have a: "binder_validate reg x1 m = (Inr x1, m)"
    using s1 x1(3) by (simp add: binder_validate_def)
  have b: "\<forall>k v y. k \<noteq> ''__is_valid__'' \<longrightarrow> setattr x1 k v = Inr y \<longrightarrow>
            snd (binder_validate reg y m) = m"
  proof (intro allI impI)
    fix k v y assume k: "k \<noteq> ''__is_valid__''" and sa: "setattr x1 k v = Inr y"
    from setattr_flag [OF sa] k x1(3) have "truthy (is_valid_instance y)" by simp
    then show "snd (binder_validate reg y m) = m" by (rule binder_validate_valid)
  qed
  define attrs2 where "attrs2 = AList.update ''__is_valid__'' (PBool False) attrs1"
  have i: "binder_invalidate reg x1 = Inr (PObj c attrs2)"
    using s1 x1(1) by (simp add: binder_invalidate_def attrs2_def)
  have sc: "map_of attrs2 ''schema'' = None" using x1(2) by (simp add: update_conv' attrs2_def)
  have f2: "\<not> truthy (is_valid_instance (PObj c attrs2))" by (simp add: update_conv' attrs2_def)
  have r: "binder_validate reg (PObj c attrs2) m = run_validation reg sch (PObj c attrs2) m"
    using sc x(3) f2 by (simp add: binder_validate_def)
  have cnt: "bound reg c sch \<longrightarrow> map_of attrs2 ''to_dict'' = None \<longrightarrow>
               m + length (filter (\<lambda>f. map_of attrs2 (fname f) \<noteq> None) (declared_fields sch))
                 \<le> snd (binder_validate reg (PObj c attrs2) m)"
  proof (intro impI)
    assume bd: "bound reg c sch" and td: "map_of attrs2 ''to_dict'' = None"
    from run_validation_count [OF bd sc td f2]
    show "m + length (filter (\<lambda>f. map_of attrs2 (fname f) \<noteq> None) (declared_fields sch))
                 \<le> snd (binder_validate reg (PObj c attrs2) m)"
      unfolding r .
  qed
  have third: "\<exists>c attrs sch.
            binder_invalidate reg x1 = Inr (PObj c attrs) \<and> reg c = Some sch \<and>
            \<not> truthy (is_valid_instance (PObj c attrs)) \<and>
            binder_validate reg (PObj c attrs) m = run_validation reg sch (PObj c attrs) m \<and>
            (bound reg c sch \<longrightarrow> map_of attrs ''to_dict'' = None \<longrightarrow>
               m + length (filter (\<lambda>f. map_of attrs (fname f) \<noteq> None) (declared_fields sch))
                 \<le> snd (binder_validate reg (PObj c attrs) m))"
    apply (rule exI [of _ c], rule exI [of _ attrs2], rule exI [of _ sch])
    using i x(3) f2 r cnt apply (intro conjI)
        apply assumption+
    done
  from a b third show ?thesis by (intro conjI)
qed


theorem validate_cached_witness:
  "binder_validate sample_registry ada 0 = (Inr valid_ada, 2) \<and>
   binder_validate sample_registry valid_ada 2 = (Inr valid_ada, 2) \<and>
   binder_invalidate sample_registry valid_ada = Inr invalid_ada \<and>
   binder_validate sample_registry invalid_ada 2 = (Inr valid_ada, 4)"
proof -
  have h: "binder_validate sample_registry ada 0 = (Inr valid_ada, 2)"
    by (simp add: binder_defs sample_defs hook_defs)
  have c: "binder_validate sample_registry valid_ada 2 = (Inr valid_ada, 2)"
    using validate_cached_until_invalidate [OF h] by (rule conjunct1)
  have i: "binder_invalidate sample_registry valid_ada = Inr invalid_ada"
    by (simp add: binder_defs sample_defs)
  have r: "binder_validate sample_registry invalid_ada 2 = (Inr valid_ada, 4)"
    by (simp add: binder_defs sample_defs hook_defs)
  from h c i r show ?thesis by (intro conjI)
qed

section \<open>Reserved fields\<close>

text \<open>
  C7, as amended: the dump hook never adds the reserved name \<^verbatim>\<open>__is_valid__\<close>: its output has
  an entry of that name only if the engine's output already had one. The load hook has no
  reserved list: it copies every key that the validated data lacks, the reserved name
  included. The instance that \<^verbatim>\<open>from_dict\<close> builds for a bound class has its flag set to
  \<^verbatim>\<open>True\<close> by the trusted construction, whatever the input mapping held under that name.
\<close>

theorem reserved_field_handling:
  "(dump_additional_one (PDict d) orig = Inr (PDict d') \<longrightarrow>
      map_of d' ''__is_valid__'' = map_of d ''__is_valid__'') \<and>
   (\<exists>d''. load_additional_one (PDict d) (PDict m) = Inr (PDict d'') \<and>
      (\<forall>k. map_of d'' k = (case map_of d k of Some v \<Rightarrow> Some v | None \<Rightarrow> map_of m k))) \<and>
   (bound reg c sch \<longrightarrow> from_dict reg c (PDict m) n = (Inr x, n') \<longrightarrow>
      is_valid_instance x = PBool True)"
proof (intro conjI impI)
  assume "dump_additional_one (PDict d) orig = Inr (PDict d')"
  then show "map_of d' ''__is_valid__'' = map_of d ''__is_valid__''"
    by (cases orig) (auto simp: map_of_dump_merge black_list_def split: option.splits)
next
  show "\<exists>d''. load_additional_one (PDict d) (PDict m) = Inr (PDict d'') \<and>
      (\<forall>k. map_of d'' k = (case map_of d k of Some v \<Rightarrow> Some v | None \<Rightarrow> map_of m k))"
    by (simp add: map_of_load_merge)
next
  assume b: "bound reg c sch" and f: "from_dict reg c (PDict m) n = (Inr x, n')"
  from b have "reg c = Some sch" "model_cls sch \<noteq> SimpleNamespace" by (auto simp: bound_def)
  from from_dict_ok [OF f this] show "is_valid_instance x = PBool True"
    by (auto simp: update_conv')
qed

theorem reserved_field_handling_witness:
  "dump_additional_one (PDict [(''name'', PStr ''Ada'')]) valid_ada
     = Inr (PDict [(''name'', PStr ''Ada''), (''tag'', PStr ''x'')]) \<and>
   map_of [(''name'', PStr ''Ada''), (''tag'', PStr ''x'')] ''__is_valid__''
     = map_of [(''name'', PStr ''Ada'')] ''__is_valid__'' \<and>
   bound sample_registry 1 PersonSchema \<and>
   from_dict sample_registry 1
     (PDict [(''name'', PStr ''Ada''), (''__is_valid__'', PStr ''no'')]) 0
     = (Inr (PObj 1 [(''name'', PStr ''Ada''), (''__is_valid__'', PBool True)]), 1) \<and>
   is_valid_instance (PObj 1 [(''name'', PStr ''Ada''), (''__is_valid__'', PBool True)])
     = PBool True"
proof -
  have h1: "dump_additional_one (PDict [(''name'', PStr ''Ada'')]) valid_ada
     = Inr (PDict [(''name'', PStr ''Ada''), (''tag'', PStr ''x'')])"
    by (simp add: sample_defs hook_defs)
  have c1: "map_of [(''name'', PStr ''Ada''), (''tag'', PStr ''x'')] ''__is_valid__''
     = map_of [(''name'', PStr ''Ada'')] ''__is_valid__''"
    using reserved_field_handling [THEN conjunct1, THEN mp, OF h1] .
  have b: "bound sample_registry 1 PersonSchema"
    by (simp add: bound_def sample_defs)
  have f: "from_dict sample_registry 1
     (PDict [(''name'', PStr ''Ada''), (''__is_valid__'', PStr ''no'')]) 0
     = (Inr (PObj 1 [(''name'', PStr ''Ada''), (''__is_valid__'', PBool True)]), 1)"
    by (simp add: binder_defs sample_defs hook_defs)
  have c3: "is_valid_instance (PObj 1 [(''name'', PStr ''Ada''), (''__is_valid__'', PBool True)])
     = PBool True"
    using reserved_field_handling [THEN conjunct2, THEN conjunct2, THEN mp, THEN mp, OF b f] .
  from h1 c1 b f c3 show ?thesis by (intro conjI)
qed

text \<open>The load hook copies a reserved key, and the \<^verbatim>\<open>load\<close> of a schema that was never bound
  keeps it, with the input's value, on the instance it builds.\<close>

theorem load_copies_reserved_field:
  "load_additional_data (PDict []) False (PDict [(''__is_valid__'', PStr ''x'')])
     = Inr (PDict [(''__is_valid__'', PStr ''x'')]) \<and>
   load sample_registry UnboundSchema (PDict [(''__is_valid__'', PStr ''x'')]) False 0
     = (Inr (PObj SimpleNamespace
               [(''__is_valid__'', PStr ''x''), (''__validity_warranty__'', PBool True)], []), 0)"
  by (simp add: load_def finish_load_def hook_defs UnboundSchema_def)

section \<open>The lifecycle of the validity flag\<close>






section \<open>List mode\<close>





















end
